theory Spec2Isabelle
  imports Complex_Main
begin

section \<open>The sub-bass synthesizer of \<open>src/main.py\<close>\<close>

text \<open>
  The audio functions of \<open>src/main.py\<close> are \<open>analyze_chords\<close>, \<open>generate_sine_wave\<close> and
  \<open>add_sub_bass\<close>. Their numbers are Python floats, that is IEEE 754 binary64 values,
  and every arithmetic step of the source rounds; the floats are modelled as such, with
  round-to-nearest-even, overflow to infinity, gradual underflow, signed zeros and NaN.
  Exceptions are values of the type \<open>error\<close>; a function that can raise returns
  \<open>error + 'a\<close>, with \<open>Inl\<close> for the exception. Arrays are lists of any length: the
  memory limits of \<open>numpy\<close> are not modelled. The arguments of the functions and the
  entries of a chord are floats, as in the chord list of the source; Python integers in
  their place are not modelled.
\<close>

subsection \<open>Floats\<close>

text \<open>
  A float is NaN, an infinity with its sign, or a finite number given by its sign
  (\<open>True\<close> for minus) and its magnitude; the two zeros are \<open>Finite False 0\<close> and
  \<open>Finite True 0\<close>. A finite value stands for a float of the machine when its magnitude
  is \<open>m * 2\<^sup>e\<close> with \<open>m < 2\<^sup>5\<^sup>3\<close>, \<open>e \<ge> -1074\<close> and a value below \<open>2\<^sup>1\<^sup>0\<^sup>2\<^sup>4\<close>. The
  operations round their results to such magnitudes, and the properties below hold of
  all values of the type, so of every float.
\<close>

datatype double = NaN | Infty bool | Finite bool real

text \<open>Rounding a real to the nearest integer, a tie going to the even one.\<close>

definition rne :: "real \<Rightarrow> int" where
  "rne x =
     (let f = \<lfloor>x\<rfloor>; r = x - real_of_int f
      in if r < 1 / 2 then f else if 1 / 2 < r then f + 1 else if even f then f else f + 1)"

text \<open>
  The exponent of the last place of a magnitude \<open>a > 0\<close>: 52 below the exponent of
  \<open>a\<close>, and never below that of the subnormal numbers.
\<close>

definition quantum :: "real \<Rightarrow> int" where
  "quantum a = max (\<lfloor>log 2 a\<rfloor> - 52) (- 1074)"

text \<open>
  The float nearest to a real of sign \<open>s\<close> and magnitude \<open>\<bar>a\<bar>\<close>: the magnitude is
  rounded to a multiple of its last place; a result of \<open>2\<^sup>1\<^sup>0\<^sup>2\<^sup>4\<close> or more is an
  infinity.
\<close>

definition round_mag :: "bool \<Rightarrow> real \<Rightarrow> double" where
  "round_mag s a =
     (if a = 0 then Finite s 0
      else
        let q = quantum \<bar>a\<bar>;
            v = real_of_int (rne (\<bar>a\<bar> / 2 powi q)) * 2 powi q
        in if 2 ^ 1024 \<le> v then Infty s else Finite s v)"

fun fneg :: "double \<Rightarrow> double" where
  "fneg NaN = NaN"
| "fneg (Infty s) = Infty (\<not> s)"
| "fneg (Finite s a) = Finite (\<not> s) a"

fun fmul :: "double \<Rightarrow> double \<Rightarrow> double" where
  "fmul (Finite s a) (Finite t b) = round_mag (s \<noteq> t) (a * b)"
| "fmul (Infty s) (Finite t b) = (if b = 0 then NaN else Infty (s \<noteq> t))"
| "fmul (Finite s a) (Infty t) = (if a = 0 then NaN else Infty (s \<noteq> t))"
| "fmul (Infty s) (Infty t) = Infty (s \<noteq> t)"
| "fmul NaN y = NaN"
| "fmul x NaN = NaN"

text \<open>Division of \<open>numpy\<close> floats: a division by zero gives an infinity or NaN, no exception.\<close>

fun fdiv :: "double \<Rightarrow> double \<Rightarrow> double" where
  "fdiv (Finite s a) (Finite t b) =
     (if b = 0 then (if a = 0 then NaN else Infty (s \<noteq> t)) else round_mag (s \<noteq> t) (a / b))"
| "fdiv (Infty s) (Finite t b) = Infty (s \<noteq> t)"
| "fdiv (Finite s a) (Infty t) = Finite (s \<noteq> t) 0"
| "fdiv (Infty s) (Infty t) = NaN"
| "fdiv NaN y = NaN"
| "fdiv x NaN = NaN"

text \<open>
  Addition: an exact sum of zero is \<open>-0\<close> only when both operands are negative (zeros).
\<close>

fun fadd :: "double \<Rightarrow> double \<Rightarrow> double" where
  "fadd (Finite s a) (Finite t b) =
     (let v = (if s then - a else a) + (if t then - b else b)
      in if v = 0 then Finite (s \<and> t) 0 else round_mag (v < 0) v)"
| "fadd (Infty s) (Finite t b) = Infty s"
| "fadd (Finite s a) (Infty t) = Infty t"
| "fadd (Infty s) (Infty t) = (if s = t then Infty s else NaN)"
| "fadd NaN y = NaN"
| "fadd x NaN = NaN"

definition fsub :: "double \<Rightarrow> double \<Rightarrow> double" where
  "fsub x y = fadd x (fneg y)"

text \<open>The comparison \<open>x == 0\<close>: true of both zeros, false of NaN.\<close>

fun is_zero :: "double \<Rightarrow> bool" where
  "is_zero (Finite s a) = (a = 0)"
| "is_zero (Infty s) = False"
| "is_zero NaN = False"

text \<open>The conversion of an integer to a float.\<close>

definition double_of_int :: "int \<Rightarrow> double" where
  "double_of_int i = round_mag (i < 0) (real_of_int i)"

text \<open>
  The float constants of the source: the integers 0, 2 and 44100, \<open>numpy.pi\<close>
  (\<open>0x1.921fb54442d18p+1\<close>) and the literal \<open>0.3\<close> (\<open>0x1.3333333333333p-2\<close>).
\<close>

definition f_zero :: double where
  "f_zero = Finite False 0"

definition f_two :: double where
  "f_two = Finite False 2"

definition f_44100 :: double where
  "f_44100 = Finite False 44100"

definition np_pi :: double where
  "np_pi = Finite False (884279719003555 / 2 ^ 48)"

definition f_0_3 :: double where
  "f_0_3 = Finite False (5404319552844595 / 2 ^ 54)"

subsection \<open>Data\<close>

text \<open>
  The exceptions the audio functions can meet: \<open>int\<close> of a NaN (a \<open>ValueError\<close>),
  \<open>int\<close> of an infinity (an \<open>OverflowError\<close>), and the \<open>ValueError\<close> of
  \<open>numpy.linspace\<close> for a negative number of samples, whose message carries that
  number.
\<close>

datatype error = ValueError_nan | OverflowError | ValueError_samples int

text \<open>
  A chord is a dictionary with the keys \<open>"chord"\<close>, \<open>"root"\<close> and \<open>"duration"\<close>
  (lines 29 to 32), the last two holding floats. The fields carry the prefix \<open>c_\<close>,
  since \<open>root\<close> is a constant of HOL and \<open>duration\<close> is a parameter of
  \<open>generate_sine_wave\<close>.
\<close>

record chord_event =
  c_chord :: string
  c_root :: double
  c_duration :: double

text \<open>
  The dictionary returned by \<open>add_sub_bass\<close> (lines 54 to 58). Its \<open>"bass_duration"\<close>
  is the float of a true division or the integer 0.
\<close>

datatype py_num = PyInt int | PyFloat double

record bass_info =
  status :: string
  chords_detected :: nat
  bass_duration :: py_num

subsection \<open>Library functions the source calls\<close>

text \<open>
  Python's \<open>int\<close> on a float truncates toward zero, and raises on NaN and on the
  infinities.
\<close>

fun py_int :: "double \<Rightarrow> error + int" where
  "py_int NaN = Inl ValueError_nan"
| "py_int (Infty s) = Inl OverflowError"
| "py_int (Finite s a) = Inr (if s then - \<lfloor>a\<rfloor> else \<lfloor>a\<rfloor>)"

text \<open>
  \<open>numpy.sin\<close> gives NaN for NaN and for the infinities. Its value for a finite
  argument is that of the platform's sine, which the source does not fix: the functions
  below take it as the parameter \<open>sin_impl\<close>.
\<close>

fun np_sin :: "(double \<Rightarrow> double) \<Rightarrow> double \<Rightarrow> double" where
  "np_sin sin_impl (Finite s a) = sin_impl (Finite s a)"
| "np_sin sin_impl (Infty s) = NaN"
| "np_sin sin_impl NaN = NaN"

text \<open>
  \<open>numpy.linspace(start, stop, num)\<close> with its default \<open>endpoint=True\<close>, on floats:
  \<^verbatim>\<open>
  if num < 0: raise ValueError(...)
  div = num - 1
  delta = stop - start
  y = arange(0, num)
  if div > 0:
      step = delta / div
      if step == 0: y = (y / div) * delta
      else:         y = y * step
  else:
      y = y * delta
  y += start
  if num > 1: y[-1] = stop
  \<close>
\<close>

definition linspace :: "double \<Rightarrow> double \<Rightarrow> int \<Rightarrow> error + double list" where
  "linspace start stop num =
     (if num < 0 then Inl (ValueError_samples num)
      else
        let n = nat num;
            dv = num - 1;
            delta = fsub stop start;
            y = map (\<lambda>i. double_of_int (int i)) [0..<n];
            y = (if 0 < dv
                 then
                   let step = fdiv delta (double_of_int dv)
                   in if is_zero step
                      then map (\<lambda>v. fmul (fdiv v (double_of_int dv)) delta) y
                      else map (\<lambda>v. fmul v step) y
                 else map (\<lambda>v. fmul v delta) y);
            y = map (\<lambda>v. fadd v start) y
        in Inr (if 1 < n then y[n - 1 := stop] else y))"

subsection \<open>The audio functions\<close>

text \<open>\<open>analyze_chords\<close> (lines 21 to 34) ignores its argument and returns a fixed list.\<close>

definition analyze_chords :: "string \<Rightarrow> chord_event list" where
  "analyze_chords audio_file =
     [\<lparr>c_chord = ''C'', c_root = Finite False (2301057934609613 / 2 ^ 45),
       c_duration = Finite False 2\<rparr>,
      \<lparr>c_chord = ''G'', c_root = Finite False 98, c_duration = Finite False 2\<rparr>,
      \<lparr>c_chord = ''Am'', c_root = Finite False 110, c_duration = Finite False 2\<rparr>,
      \<lparr>c_chord = ''F'', c_root = Finite False (6143191366710067 / 2 ^ 46),
       c_duration = Finite False 2\<rparr>]"

text \<open>
  \<open>generate_sine_wave\<close> (lines 36 to 40):
  \<^verbatim>\<open>
  t = np.linspace(0, duration, int(sample_rate * duration))
  wave = np.sin(2 * np.pi * frequency * t)
  return wave * 0.3
  \<close>
  The product \<open>2 * np.pi * frequency\<close> is formed from the left before it multiplies
  the array.
\<close>

definition generate_sine_wave ::
    "(double \<Rightarrow> double) \<Rightarrow> double \<Rightarrow> double \<Rightarrow> double \<Rightarrow> error + double list" where
  "generate_sine_wave sin_impl frequency duration sample_rate =
     (case py_int (fmul sample_rate duration) of
        Inl e \<Rightarrow> Inl e
      | Inr num \<Rightarrow>
          (case linspace f_zero duration num of
             Inl e \<Rightarrow> Inl e
           | Inr t \<Rightarrow>
               let wave = map (\<lambda>x. np_sin sin_impl
                                 (fmul (fmul (fmul f_two np_pi) frequency) x)) t
               in Inr (map (\<lambda>w. fmul w f_0_3) wave)))"

text \<open>
  The loop of \<open>add_sub_bass\<close> (lines 44 to 47): every chord's wave is appended to
  \<open>sub_bass_layers\<close>; an exception of \<open>generate_sine_wave\<close> leaves the loop and the
  function. The call passes no sample rate, so the default 44100 applies.
\<close>

fun sub_bass_loop ::
    "(double \<Rightarrow> double) \<Rightarrow> chord_event list \<Rightarrow> double list list \<Rightarrow> error + double list list" where
  "sub_bass_loop sin_impl [] sub_bass_layers = Inr sub_bass_layers"
| "sub_bass_loop sin_impl (chord # chords) sub_bass_layers =
     (case generate_sine_wave sin_impl (c_root chord) (c_duration chord) f_44100 of
        Inl e \<Rightarrow> Inl e
      | Inr sine_wave \<Rightarrow> sub_bass_loop sin_impl chords (sub_bass_layers @ [sine_wave]))"

text \<open>
  The local \<open>combined_bass\<close> of \<open>add_sub_bass\<close> (line 50): the concatenation of the
  layers, or the empty array when there is none.
\<close>

definition combined_bass :: "(double \<Rightarrow> double) \<Rightarrow> chord_event list \<Rightarrow> error + double list" where
  "combined_bass sin_impl chords =
     (case sub_bass_loop sin_impl chords [] of
        Inl e \<Rightarrow> Inl e
      | Inr sub_bass_layers \<Rightarrow>
          Inr (if sub_bass_layers \<noteq> [] then concat sub_bass_layers else []))"

text \<open>
  \<open>add_sub_bass\<close> (lines 42 to 58) returns the dictionary only; the buffer stays local.
  The division of line 57 is the true division of two integers, whose result is the
  float nearest to the quotient.
\<close>

definition add_sub_bass ::
    "(double \<Rightarrow> double) \<Rightarrow> string \<Rightarrow> chord_event list \<Rightarrow> error + bass_info" where
  "add_sub_bass sin_impl original_file chords =
     (case combined_bass sin_impl chords of
        Inl e \<Rightarrow> Inl e
      | Inr cb \<Rightarrow>
          Inr \<lparr>status = ''success'',
               chords_detected = length chords,
               bass_duration =
                 (if 0 < length cb then PyFloat (round_mag False (real (length cb) / 44100))
                  else PyInt 0)\<rparr>)"

subsection \<open>Predicates of the properties\<close>

text \<open>
  A float that Python compares as greater than zero; a finite float; the magnitude of a
  finite float; a finite float of magnitude at most \<open>r\<close>.
\<close>

fun fpos :: "double \<Rightarrow> bool" where
  "fpos (Finite s a) = (\<not> s \<and> 0 < a)"
| "fpos (Infty s) = (\<not> s)"
| "fpos NaN = False"

fun is_finite :: "double \<Rightarrow> bool" where
  "is_finite (Finite s a) = True"
| "is_finite (Infty s) = False"
| "is_finite NaN = False"

fun magnitude :: "double \<Rightarrow> real" where
  "magnitude (Finite s a) = a"
| "magnitude (Infty s) = 0"
| "magnitude NaN = 0"


subsection \<open>The specification's wording\<close>

text \<open>
  The specification states the sample count as \<open>round(sampleRate * duration)\<close> and the
  sample times as \<open>sampleCount\<close> evenly spaced points of the half-open interval
  \<open>[0, duration)\<close>, that is \<open>i * duration / sampleCount\<close>. These definitions follow
  that wording, for comparison with the code; Python's \<open>round\<close> rounds a tie to the
  even integer.
\<close>

definition spec_sample_count :: "double \<Rightarrow> double \<Rightarrow> int" where
  "spec_sample_count sample_rate duration =
     (case fmul sample_rate duration of
        Finite s a \<Rightarrow> (if s then - rne a else rne a)
      | Infty s \<Rightarrow> 0
      | NaN \<Rightarrow> 0)"

definition spec_sample_times :: "double \<Rightarrow> int \<Rightarrow> double list" where
  "spec_sample_times duration sampleCount =
     map (\<lambda>i. fdiv (fmul (double_of_int (int i)) duration) (double_of_int sampleCount))
       [0..<nat sampleCount]"

definition spec_render_length :: "chord_event list \<Rightarrow> int" where
  "spec_render_length timeline = (\<Sum>e\<leftarrow>timeline. spec_sample_count f_44100 (c_duration e))"



section \<open>Properties\<close>

subsection \<open>Rounding\<close>

text \<open>
  A magnitude that is a float is rounded to itself, a magnitude of \<open>2\<^sup>1\<^sup>0\<^sup>2\<^sup>4\<close> or more
  to an infinity, and a magnitude below a float to at most that float. When the
  exponent of the magnitude is known, \<open>round_mag_eval\<close> computes the rounding.
\<close>

lemma rne_of_int: "rne (real_of_int k) = k"
  by (simp add: rne_def)

lemma rne_bounds: "\<lfloor>x\<rfloor> \<le> rne x \<and> rne x \<le> \<lfloor>x\<rfloor> + 1"
  by (simp add: rne_def Let_def)


lemma rne_ge: "real_of_int k \<le> x \<Longrightarrow> k \<le> rne x"
proof -
  assume "real_of_int k \<le> x"
  then have "k \<le> \<lfloor>x\<rfloor>" by (simp add: le_floor_iff)
  with rne_bounds [of x] show ?thesis by linarith
qed

lemma ilog2_bounds:
  assumes "0 < a"
  shows "2 powi \<lfloor>log 2 a\<rfloor> \<le> a \<and> a < 2 powi (\<lfloor>log 2 a\<rfloor> + 1)"
proof -
  from assms floor_log_eq_powr_iff [of a 2 "\<lfloor>log 2 a\<rfloor>"]
  have "2 powr real_of_int \<lfloor>log 2 a\<rfloor> \<le> a \<and> a < 2 powr (real_of_int \<lfloor>log 2 a\<rfloor> + 1)" by simp
  moreover have "real_of_int \<lfloor>log 2 a\<rfloor> + 1 = real_of_int (\<lfloor>log 2 a\<rfloor> + 1)" by simp
  ultimately show ?thesis by (simp only: powr_real_of_int' [of 2, simplified])
qed

lemma ilog2_unique:
  assumes "2 powi k \<le> a" and "a < 2 powi (k + 1)"
  shows "\<lfloor>log 2 a\<rfloor> = k"
proof -
  have "(0::real) < 2 powi k" by simp
  with assms have pos: "0 < a" by linarith
  have "real_of_int k + 1 = real_of_int (k + 1)" by simp
  with assms have "2 powr real_of_int k \<le> a \<and> a < 2 powr (real_of_int k + 1)"
    by (simp only: powr_real_of_int' [of 2, simplified])
  with pos show ?thesis by (simp add: floor_log_eq_powr_iff)
qed


lemma pw2_add: "(2::real) powi (x + y) = 2 powi x * 2 powi y"
  by (simp add: power_int_add)

lemma quantum_multiple:
  assumes "0 < a" and "a \<le> r" and "r = real m * 2 powi e" and "m < 2 ^ 53" and "- 1074 \<le> e"
  shows "\<exists>k::int. r = real_of_int k * 2 powi quantum a"
proof (cases "quantum a \<le> e")
  case True
  define k :: int where "k = int m * 2 ^ nat (e - quantum a)"
  have "(2::real) powi e = 2 powi (e - quantum a) * 2 powi quantum a"
    by (simp flip: power_int_add)
  also have "(2::real) powi (e - quantum a) = 2 ^ nat (e - quantum a)"
    using True by (simp add: power_int_nonneg_exp)
  finally have "r = real_of_int k * 2 powi quantum a"
    by (simp add: assms(3) k_def)
  then show ?thesis ..
next
  case False
  with assms(5) have q: "quantum a = \<lfloor>log 2 a\<rfloor> - 52" and lt: "e + 1 \<le> quantum a"
    by (auto simp: quantum_def)
  have "real m < 2 ^ 53" using assms(4) by (metis of_nat_less_iff of_nat_numeral of_nat_power)
  then have "r < 2 ^ 53 * 2 powi e" by (simp add: assms(3))
  also have "\<dots> = 2 powi (e + 53)" by (simp add: power_int_add)
  also have "\<dots> \<le> 2 powi \<lfloor>log 2 a\<rfloor>"
    using lt q by (intro power_int_increasing) auto
  also have "\<dots> \<le> a" using ilog2_bounds [OF assms(1)] by simp
  finally show ?thesis using assms(2) by simp
qed


lemma round_mag_exact:
  assumes "a = real m * 2 powi e" and "m < 2 ^ 53" and "- 1074 \<le> e" and "a < 2 ^ 1024"
  shows "round_mag s a = Finite s a"
proof (cases "a = 0")
  case True
  then show ?thesis by (simp add: round_mag_def)
next
  case False
  have "0 \<le> a" unfolding assms(1) by simp
  with False have pos: "0 < a" by simp
  then have abs: "\<bar>a\<bar> = a" by simp
  let ?q = "quantum a"
  from quantum_multiple [OF pos order_refl assms(1-3)] obtain k :: int
    where k: "a = real_of_int k * 2 powi ?q" by blast
  have "a / 2 powi ?q = real_of_int k" by (subst k) simp
  then have "real_of_int (rne (a / 2 powi ?q)) * 2 powi ?q = a"
    using k by (simp add: rne_of_int)
  with False assms(4) show ?thesis by (simp add: round_mag_def Let_def abs)
qed

lemma round_mag_overflow:
  assumes "2 ^ 1024 \<le> a"
  shows "round_mag s a = Infty s"
proof -
  have "(0::real) < 2 ^ 1024" by simp
  with assms have pos: "0 < a" by linarith
  let ?l = "\<lfloor>log 2 a\<rfloor>"
  have "(2::real) powr real_of_int 1024 \<le> a"
    using assms by (simp only: powr_real_of_int' [of 2, simplified]) simp
  then have "real_of_int 1024 \<le> log 2 a" using pos by (simp add: le_log_iff)
  then have l: "1024 \<le> ?l" by (simp add: le_floor_iff)
  then have q: "quantum a = ?l - 52" by (simp add: quantum_def)
  let ?q = "quantum a"
  have p: "(0::real) < 2 powi ?q" by simp
  have "(2::real) powi ?l = 2 powi (52 + ?q)" by (simp add: q)
  also have "\<dots> = 2 powi 52 * 2 powi ?q" by (rule pw2_add)
  finally have split: "(2::real) powi ?l = 2 ^ 52 * 2 powi ?q" by simp
  with ilog2_bounds [OF pos] have "2 ^ 52 * 2 powi ?q \<le> a" by simp
  then have "real_of_int (2 ^ 52) \<le> a / 2 powi ?q"
    by (simp add: pos_le_divide_eq [OF p])
  then have "2 ^ 52 \<le> rne (a / 2 powi ?q)" by (rule rne_ge)
  then have "real_of_int (2 ^ 52) \<le> real_of_int (rne (a / 2 powi ?q))"
    by (simp only: of_int_le_iff)
  from mult_right_mono [OF this, of "2 powi ?q"] p
  have "real_of_int (2 ^ 52) * 2 powi ?q \<le> real_of_int (rne (a / 2 powi ?q)) * 2 powi ?q"
    by simp
  moreover have "real_of_int (2 ^ 52) * 2 powi ?q = 2 powi ?l"
    using split by simp
  ultimately have A: "2 powi ?l \<le> real_of_int (rne (a / 2 powi ?q)) * 2 powi ?q"
    by (simp only:)
  have "(2::real) powi 1024 \<le> 2 powi ?l"
    using l by (intro power_int_increasing) auto
  then have B: "(2::real) ^ 1024 \<le> 2 powi ?l" by (simp only: power_int_numeral)
  from order_trans [OF B A]
  have "2 ^ 1024 \<le> real_of_int (rne (a / 2 powi ?q)) * 2 powi ?q" .
  with pos show ?thesis by (simp add: round_mag_def Let_def)
qed

lemma round_mag_cases:
  "(\<exists>v. round_mag s a = Finite s v \<and> 0 \<le> v) \<or> round_mag s a = Infty s"
proof -
  have "real_of_int 0 \<le> \<bar>a\<bar> / 2 powi quantum \<bar>a\<bar>" by simp
  then have "0 \<le> rne (\<bar>a\<bar> / 2 powi quantum \<bar>a\<bar>)" by (rule rne_ge)
  then show ?thesis by (simp add: round_mag_def Let_def)
qed

lemma round_mag_eval:
  assumes "2 powi k \<le> a" and "a < 2 powi (k + 1)"
  shows "round_mag s a =
    (let q = max (k - 52) (- 1074);
         v = real_of_int (rne (a / 2 powi q)) * 2 powi q
     in if 2 ^ 1024 \<le> v then Infty s else Finite s v)"
proof -
  have "(0::real) < 2 powi k" by simp
  with assms have "0 < a" by linarith
  then have "a \<noteq> 0" "\<bar>a\<bar> = a" by simp_all
  then show ?thesis using ilog2_unique [OF assms] by (simp add: round_mag_def quantum_def)
qed

subsection \<open>Auxiliary facts\<close>

lemma linspace_Inl_iff: "linspace a b n = Inl e \<longleftrightarrow> n < 0 \<and> e = ValueError_samples n"
  unfolding linspace_def by (auto simp: Let_def)

lemma linspace_Inr_nonneg: "linspace a b n = Inr ts \<Longrightarrow> 0 \<le> n"
  unfolding linspace_def by (auto split: if_splits)

lemma linspace_length: "linspace a b n = Inr ts \<Longrightarrow> length ts = nat n"
  unfolding linspace_def by (auto simp: Let_def split: if_splits)

lemma linspace_total: "0 \<le> n \<Longrightarrow> \<exists>ts. linspace a b n = Inr ts"
  unfolding linspace_def by (simp add: Let_def)

lemma linspace_last:
  assumes "linspace a b n = Inr ts" and "2 \<le> n"
  shows "last ts = b"
proof -
  from assms obtain y where ts: "ts = y[nat n - 1 := b]" and len: "length y = nat n"
    unfolding linspace_def by (auto simp: Let_def split: if_splits)
  from assms(2) len have "ts \<noteq> []" "nat n - 1 < length y" "length ts = nat n"
    by (auto simp: ts)
  then show ?thesis by (simp add: last_conv_nth ts)
qed

lemma linspace_nth:
  assumes "linspace a b n = Inr ts" and "i + 1 < nat n"
    and "\<not> is_zero (fdiv (fsub b a) (double_of_int (n - 1)))"
  shows "ts ! i = fadd (fmul (double_of_int (int i)) (fdiv (fsub b a) (double_of_int (n - 1)))) a"
proof -
  let ?step = "fdiv (fsub b a) (double_of_int (n - 1))"
  let ?y = "map (\<lambda>v. fadd v a) (map (\<lambda>v. fmul v ?step) (map (\<lambda>i. double_of_int (int i)) [0..<nat n]))"
  from assms(2) have n: "1 < n" "\<not> n < 0" "1 < nat n" by simp_all
  with assms(1,3) have ts: "ts = ?y[nat n - 1 := b]"
    unfolding linspace_def by (simp add: Let_def)
  from assms(2) have "i \<noteq> nat n - 1" "i < nat n" by simp_all
  then show ?thesis unfolding ts by simp
qed

lemma gsw_Inl_iff:
  "generate_sine_wave S f d sr = Inl e \<longleftrightarrow>
     py_int (fmul sr d) = Inl e \<or>
     (\<exists>n. n < 0 \<and> py_int (fmul sr d) = Inr n \<and> e = ValueError_samples n)"
  unfolding generate_sine_wave_def
  by (auto simp: linspace_Inl_iff Let_def split: sum.splits dest: linspace_Inr_nonneg)

lemma gsw_Inr_iff:
  "generate_sine_wave S f d sr = Inr buf \<longleftrightarrow>
     (\<exists>n t. py_int (fmul sr d) = Inr n \<and> linspace f_zero d n = Inr t \<and>
        buf = map (\<lambda>x. fmul (np_sin S (fmul (fmul (fmul f_two np_pi) f) x)) f_0_3) t)"
  unfolding generate_sine_wave_def
  by (auto simp: Let_def split: sum.splits)

lemma gsw_returns:
  assumes "py_int (fmul sr d) = Inr n" and "0 \<le> n"
  shows "\<exists>t. linspace f_zero d n = Inr t \<and> length t = nat n \<and>
           generate_sine_wave S f d sr =
             Inr (map (\<lambda>x. fmul (np_sin S (fmul (fmul (fmul f_two np_pi) f) x)) f_0_3) t)"
proof -
  from linspace_total [OF assms(2)] obtain t where t: "linspace f_zero d n = Inr t" by blast
  with assms(1) linspace_length [OF t] show ?thesis by (auto simp: gsw_Inr_iff)
qed


lemma fmul_pos:
  assumes "fpos x" and "fpos y"
  shows "(\<exists>a. fmul x y = Finite False a \<and> 0 \<le> a) \<or> fmul x y = Infty False"
proof (cases x)
  case NaN
  with assms show ?thesis by simp
next
  case (Infty s)
  with assms show ?thesis by (cases y) auto
next
  case (Finite s a)
  with assms show ?thesis
    using round_mag_cases [of False]
    by (cases y) auto
qed


lemma round_mag_Finite_nonneg: "round_mag s a = Finite t v \<Longrightarrow> 0 \<le> v"
  using round_mag_cases [of s a] by auto

lemma fmul_Finite_nonneg: "fmul x y = Finite s v \<Longrightarrow> 0 \<le> v"
proof (cases x)
  case NaN
  assume "fmul x y = Finite s v"
  with NaN show ?thesis by simp
next
  case (Infty t)
  assume "fmul x y = Finite s v"
  with Infty show ?thesis by (cases y) (auto split: if_splits)
next
  case (Finite t a)
  assume "fmul x y = Finite s v"
  with Finite show ?thesis
    by (cases y) (auto split: if_splits dest: round_mag_Finite_nonneg)
qed

lemma fmul_exact:
  assumes "a * b = real m * 2 powi e" and "m < 2 ^ 53" and "- 1074 \<le> e" and "a * b < 2 ^ 1024"
  shows "fmul (Finite s a) (Finite t b) = Finite (s \<noteq> t) (a * b)"
  using round_mag_exact [OF assms] by simp

lemma py_int_Inl_iff:
  "py_int x = Inl e \<longleftrightarrow> x = NaN \<and> e = ValueError_nan \<or> (\<exists>s. x = Infty s) \<and> e = OverflowError"
  by (cases x) auto

lemma py_int_neg_iff:
  assumes "\<And>s v. x = Finite s v \<Longrightarrow> 0 \<le> v"
  shows "(\<exists>n. n < 0 \<and> py_int x = Inr n \<and> e = ValueError_samples n) \<longleftrightarrow>
         (\<exists>a. x = Finite True a \<and> 1 \<le> a \<and> e = ValueError_samples (- \<lfloor>a\<rfloor>))"
proof (cases x)
  case (Finite s a)
  with assms have "0 \<le> a" by simp
  then have "0 \<le> \<lfloor>a\<rfloor>" by simp
  moreover have "0 < \<lfloor>a\<rfloor> \<longleftrightarrow> 1 \<le> a" by (simp add: less_floor_iff)
  ultimately show ?thesis using Finite by auto
qed auto

lemma gsw_fails_iff:
  "generate_sine_wave S f d sr = Inl e \<longleftrightarrow>
     fmul sr d = NaN \<and> e = ValueError_nan \<or>
     (\<exists>s. fmul sr d = Infty s) \<and> e = OverflowError \<or>
     (\<exists>a. fmul sr d = Finite True a \<and> 1 \<le> a \<and> e = ValueError_samples (- \<lfloor>a\<rfloor>))"
  unfolding gsw_Inl_iff py_int_Inl_iff
  using py_int_neg_iff [of "fmul sr d" e, OF fmul_Finite_nonneg] by simp

lemma gsw_zero:
  "generate_sine_wave S f d sr = Inr []" if "fmul sr d = Finite s 0"
proof -
  from that have "py_int (fmul sr d) = Inr 0" by simp
  from gsw_returns [OF this, of S f] show ?thesis by auto
qed

lemma round_mag_0: "round_mag s 0 = Finite s 0"
  by (simp add: round_mag_def)

lemma round_mag_1: "round_mag s 1 = Finite s 1"
  using round_mag_exact [where m = 1 and e = 0 and a = 1] by simp

lemma round_mag_2: "round_mag s 2 = Finite s 2"
  using round_mag_exact [where m = 2 and e = 0 and a = 2] by simp

lemma round_mag_half: "round_mag s (1 / 2) = Finite s (1 / 2)"
  using round_mag_exact [where m = 1 and e = "- 1" and a = "1 / 2"] by simp

lemma double_of_int_small:
  "double_of_int 0 = Finite False 0" "double_of_int 1 = Finite False 1"
  "double_of_int 2 = Finite False 2"
  by (simp_all add: double_of_int_def round_mag_0 round_mag_1 round_mag_2)

lemma linspace_0_1_2: "linspace f_zero (Finite False 1) 2 = Inr [Finite False 0, Finite False 1]"
  by (simp add: linspace_def f_zero_def fsub_def Let_def upt_rec double_of_int_small
      round_mag_0 round_mag_1)




lemma loop_Inr_layers:
  "sub_bass_loop S chords acc = Inr layers \<Longrightarrow>
     layers = acc @ map (\<lambda>e. projr (generate_sine_wave S (c_root e) (c_duration e) f_44100)) chords"
proof (induction chords arbitrary: acc)
  case Nil
  then show ?case by simp
next
  case (Cons c cs)
  then obtain w where w: "generate_sine_wave S (c_root c) (c_duration c) f_44100 = Inr w"
    and rest: "sub_bass_loop S cs (acc @ [w]) = Inr layers"
    by (auto split: sum.splits)
  from Cons.IH [OF rest] w show ?case by simp
qed

lemma loop_total:
  "\<forall>c\<in>set chords. \<not> isl (generate_sine_wave S (c_root c) (c_duration c) f_44100) \<Longrightarrow>
     \<exists>layers. sub_bass_loop S chords acc = Inr layers"
proof (induction chords arbitrary: acc)
  case Nil
  then show ?case by simp
next
  case (Cons c cs)
  then obtain w where "generate_sine_wave S (c_root c) (c_duration c) f_44100 = Inr w"
    by (cases "generate_sine_wave S (c_root c) (c_duration c) f_44100") auto
  with Cons show ?case by simp
qed

lemma loop_fail:
  "\<forall>x\<in>set pre. \<not> isl (generate_sine_wave S (c_root x) (c_duration x) f_44100) \<Longrightarrow>
   generate_sine_wave S (c_root c) (c_duration c) f_44100 = Inl e \<Longrightarrow>
     sub_bass_loop S (pre @ c # post) acc = Inl e"
proof (induction pre arbitrary: acc)
  case Nil
  then show ?case by simp
next
  case (Cons x xs)
  then obtain w where "generate_sine_wave S (c_root x) (c_duration x) f_44100 = Inr w"
    by (cases "generate_sine_wave S (c_root x) (c_duration x) f_44100") auto
  with Cons show ?case by simp
qed

lemma loop_Inl_D:
  "sub_bass_loop S chords acc = Inl e \<Longrightarrow>
     \<exists>pre c post. chords = pre @ c # post \<and>
       (\<forall>x\<in>set pre. \<not> isl (generate_sine_wave S (c_root x) (c_duration x) f_44100)) \<and>
       generate_sine_wave S (c_root c) (c_duration c) f_44100 = Inl e"
proof (induction chords arbitrary: acc)
  case Nil
  then show ?case by simp
next
  case (Cons c cs)
  show ?case
  proof (cases "generate_sine_wave S (c_root c) (c_duration c) f_44100")
    case (Inl e')
    with Cons.prems have "e' = e" by simp
    with Inl have "c # cs = [] @ c # cs \<and>
       (\<forall>x\<in>set []. \<not> isl (generate_sine_wave S (c_root x) (c_duration x) f_44100)) \<and>
       generate_sine_wave S (c_root c) (c_duration c) f_44100 = Inl e" by simp
    then show ?thesis by blast
  next
    case (Inr w)
    with Cons.prems have "sub_bass_loop S cs (acc @ [w]) = Inl e" by simp
    from Cons.IH [OF this] obtain pre c' post where
      "cs = pre @ c' # post"
      "\<forall>x\<in>set pre. \<not> isl (generate_sine_wave S (c_root x) (c_duration x) f_44100)"
      "generate_sine_wave S (c_root c') (c_duration c') f_44100 = Inl e" by blast
    with Inr have "c # cs = (c # pre) @ c' # post \<and>
       (\<forall>x\<in>set (c # pre). \<not> isl (generate_sine_wave S (c_root x) (c_duration x) f_44100)) \<and>
       generate_sine_wave S (c_root c') (c_duration c') f_44100 = Inl e" by simp
    then show ?thesis by blast
  qed
qed

lemma combined_bass_Inl_iff:
  "combined_bass S chords = Inl e \<longleftrightarrow> sub_bass_loop S chords [] = Inl e"
  unfolding combined_bass_def by (auto split: sum.splits)

lemma add_sub_bass_Inl_iff:
  "add_sub_bass S file chords = Inl e \<longleftrightarrow> sub_bass_loop S chords [] = Inl e"
  unfolding add_sub_bass_def combined_bass_def by (auto split: sum.splits)

lemma combined_bass_concat:
  "combined_bass S chords = Inr buf \<Longrightarrow>
     buf = concat (map (\<lambda>e. projr (generate_sine_wave S (c_root e) (c_duration e) f_44100)) chords)"
  unfolding combined_bass_def
  by (auto split: sum.splits if_splits dest: loop_Inr_layers)

lemma combined_bass_total:
  "\<forall>c\<in>set chords. \<not> isl (generate_sine_wave S (c_root c) (c_duration c) f_44100) \<Longrightarrow>
     \<exists>buf. combined_bass S chords = Inr buf"
  using loop_total [of chords S "[]"] unfolding combined_bass_def by auto

lemma add_sub_bass_Inr:
  "combined_bass S chords = Inr buf \<Longrightarrow>
     add_sub_bass S file chords =
       Inr \<lparr>status = ''success'', chords_detected = length chords,
            bass_duration =
              (if 0 < length buf then PyFloat (round_mag False (real (length buf) / 44100))
               else PyInt 0)\<rparr>"
  unfolding add_sub_bass_def by simp

lemma event_valid:
  assumes "fpos (c_duration e)" and "is_finite (fmul f_44100 (c_duration e))"
  shows "\<exists>w. generate_sine_wave S (c_root e) (c_duration e) f_44100 = Inr w \<and>
           int (length w) = \<lfloor>magnitude (fmul f_44100 (c_duration e))\<rfloor>"
proof -
  have "fpos f_44100" by (simp add: f_44100_def)
  from fmul_pos [OF this assms(1)] assms(2) obtain a
    where a: "fmul f_44100 (c_duration e) = Finite False a" "0 \<le> a" by auto
  then have "py_int (fmul f_44100 (c_duration e)) = Inr \<lfloor>a\<rfloor>" "0 \<le> \<lfloor>a\<rfloor>" by simp_all
  from gsw_returns [OF this, of S "c_root e"] a show ?thesis by auto
qed

lemma render_valid:
  assumes "\<forall>e\<in>set chords. fpos (c_duration e) \<and> is_finite (fmul f_44100 (c_duration e))"
  shows "\<exists>buf. combined_bass S chords = Inr buf \<and>
           buf = concat (map (\<lambda>e. projr (generate_sine_wave S (c_root e) (c_duration e) f_44100))
                    chords) \<and>
           int (length buf) = (\<Sum>e\<leftarrow>chords. \<lfloor>magnitude (fmul f_44100 (c_duration e))\<rfloor>) \<and>
           add_sub_bass S original_file chords =
             Inr \<lparr>status = ''success'', chords_detected = length chords,
                  bass_duration =
                    (if 0 < length buf then PyFloat (round_mag False (real (length buf) / 44100))
                     else PyInt 0)\<rparr>"
proof -
  let ?w = "\<lambda>e. projr (generate_sine_wave S (c_root e) (c_duration e) f_44100)"
  have ev: "\<not> isl (generate_sine_wave S (c_root e) (c_duration e) f_44100) \<and>
      int (length (?w e)) = \<lfloor>magnitude (fmul f_44100 (c_duration e))\<rfloor>" if "e \<in> set chords" for e
    using event_valid [of e S] assms that by auto
  then have "\<forall>c\<in>set chords. \<not> isl (generate_sine_wave S (c_root c) (c_duration c) f_44100)"
    by blast
  from combined_bass_total [OF this] obtain buf where buf: "combined_bass S chords = Inr buf"
    by blast
  note cc = combined_bass_concat [OF buf]
  have "int (length (concat (map ?w chords))) =
        (\<Sum>e\<leftarrow>chords. \<lfloor>magnitude (fmul f_44100 (c_duration e))\<rfloor>)"
    using ev by (induction chords) simp_all
  with cc have "int (length buf) = (\<Sum>e\<leftarrow>chords. \<lfloor>magnitude (fmul f_44100 (c_duration e))\<rfloor>)"
    by simp
  with buf cc add_sub_bass_Inr [OF buf, of original_file] show ?thesis by blast
qed

lemma fmul_44100_2: "fmul f_44100 (Finite False 2) = Finite False 88200"
  unfolding f_44100_def
  using fmul_exact [where m = 88200 and e = 0 and a = 44100 and b = 2 and s = False and t = False]
  by simp

lemma fmul_44100_0_3: "fmul f_44100 f_0_3 = Finite False 13230"
  unfolding f_44100_def f_0_3_def
  by (simp, subst round_mag_eval [where k = 13]) (simp_all add: rne_def Let_def)

lemma fmul_44100_neg_0_3: "fmul f_44100 (fneg f_0_3) = Finite True 13230"
  unfolding f_44100_def f_0_3_def
  by (simp, subst round_mag_eval [where k = 13]) (simp_all add: rne_def Let_def)

lemma fpos_f_0_3: "fpos f_0_3"
  by (simp add: f_0_3_def)

lemma round_mag_8: "round_mag s 8 = Finite s 8"
  using round_mag_exact [where m = 8 and e = 0 and a = 8] by simp

lemma gsw_ok: "fmul sr d = Finite False a \<Longrightarrow> \<not> isl (generate_sine_wave S f d sr)"
  by (cases "generate_sine_wave S f d sr") (auto simp: gsw_fails_iff)

lemma fmul_44100_huge: "fmul f_44100 (Finite False (2 ^ 1020)) = Infty False"
proof -
  have "(2::real) ^ 1024 \<le> 44100 * 2 ^ 1020" by simp
  from round_mag_overflow [OF this, of False] show ?thesis by (simp add: f_44100_def)
qed

subsection \<open>Rejected input\<close>

text \<open>
  C1, as the code has it: \<open>generate_sine_wave\<close> checks none of its arguments. A call
  fails exactly when \<open>int(sample_rate * duration)\<close> cannot be taken or is negative:
  with a \<open>ValueError\<close> when the float product is NaN, with an \<open>OverflowError\<close> when it is
  an infinity, and with the \<open>ValueError\<close> of \<open>numpy.linspace\<close>, carrying the truncated
  product, when the product is \<open>-1\<close> or less; a failing call produces no buffer. The
  frequency never matters, and a zero duration or a zero sample rate, the other one
  being finite, gives the empty buffer.
\<close>

theorem generate_sine_wave_fails_iff:
  "(generate_sine_wave sin_impl frequency duration sample_rate = Inl e \<longleftrightarrow>
      fmul sample_rate duration = NaN \<and> e = ValueError_nan \<or>
      (\<exists>s. fmul sample_rate duration = Infty s) \<and> e = OverflowError \<or>
      (\<exists>a. fmul sample_rate duration = Finite True a \<and> 1 \<le> a \<and>
           e = ValueError_samples (- \<lfloor>a\<rfloor>))) \<and>
   generate_sine_wave sin_impl frequency (Finite s 0) (Finite t b) = Inr [] \<and>
   generate_sine_wave sin_impl frequency (Finite s a) (Finite t 0) = Inr []"
proof -
  have "fmul (Finite t b) (Finite s 0) = Finite (t \<noteq> s) 0"
    and "fmul (Finite t 0) (Finite s a) = Finite (t \<noteq> s) 0"
    by (simp_all add: round_mag_def)
  then show ?thesis using gsw_fails_iff [of sin_impl frequency duration sample_rate e]
    by (simp add: gsw_zero)
qed

text \<open>
  An instance: the sample rate 3 and the duration \<open>-0.3333333333333333\<close>
  (\<open>-0x1.5555555555555p-2\<close>). The exact product is just above \<open>-1\<close>; the float product
  is the tie rounded to \<open>-1.0\<close>, and \<open>linspace\<close> raises for \<open>-1\<close> samples.
\<close>

theorem generate_sine_wave_fails_iff_witness:
  "\<forall>sin_impl.
     generate_sine_wave sin_impl (Finite False 100) (Finite True (6004799503160661 / 2 ^ 54))
       (Finite False 3) = Inl (ValueError_samples (- 1))"
proof
  fix sin_impl
  have "fmul (Finite False 3) (Finite True (6004799503160661 / 2 ^ 54)) = Finite True 1"
    by (simp, subst round_mag_eval [where k = "- 1"]) (simp_all add: rne_def Let_def)
  then show "generate_sine_wave sin_impl (Finite False 100)
      (Finite True (6004799503160661 / 2 ^ 54)) (Finite False 3) = Inl (ValueError_samples (- 1))"
    using generate_sine_wave_fails_iff
          [of sin_impl "Finite False 100" "Finite True (6004799503160661 / 2 ^ 54)"
             "Finite False 3" "ValueError_samples (- 1)", THEN conjunct1]
    by simp
qed

text \<open>
  The call \<open>generate_sine_wave(-10, 1.0)\<close> does not fail: it returns 44100 samples,
  whatever the sine function.
\<close>

theorem negative_frequency_accepted:
  "\<forall>sin_impl.
     \<not> isl (generate_sine_wave sin_impl (Finite True 10) (Finite False 1) f_44100) \<and>
     length (projr (generate_sine_wave sin_impl (Finite True 10) (Finite False 1) f_44100)) = 44100"
proof
  fix sin_impl
  have "fmul f_44100 (Finite False 1) = Finite False 44100"
    unfolding f_44100_def
    using fmul_exact [where m = 44100 and e = 0 and a = 44100 and b = 1 and s = False and t = False]
    by simp
  then have "py_int (fmul f_44100 (Finite False 1)) = Inr 44100" by simp
  from gsw_returns [OF this, of sin_impl "Finite True 10"]
  show "\<not> isl (generate_sine_wave sin_impl (Finite True 10) (Finite False 1) f_44100) \<and>
     length (projr (generate_sine_wave sin_impl (Finite True 10) (Finite False 1) f_44100)) = 44100"
    by auto
qed

subsection \<open>Length of a tone\<close>

text \<open>
  C2, as the code has it: for \<open>frequency > 0\<close>, \<open>duration > 0\<close> and
  \<open>sample_rate > 0\<close> the float product \<open>sample_rate * duration\<close> is finite or the
  positive infinity. When it is finite, the call returns a buffer of
  \<open>int(sample_rate * duration)\<close> samples: the float product truncated (here: rounded
  down), not rounded to the nearest integer. When it is infinite, the call raises
  \<open>OverflowError\<close>.
\<close>

theorem generate_sine_wave_length:
  assumes "fpos frequency" and "fpos duration" and "fpos sample_rate"
  shows "(\<exists>a buf. fmul sample_rate duration = Finite False a \<and>
            generate_sine_wave sin_impl frequency duration sample_rate = Inr buf \<and>
            int (length buf) = \<lfloor>a\<rfloor>) \<or>
         (fmul sample_rate duration = Infty False \<and>
            generate_sine_wave sin_impl frequency duration sample_rate = Inl OverflowError)"
proof -
  from fmul_pos [OF assms(3,2)] show ?thesis
  proof
    assume "\<exists>a. fmul sample_rate duration = Finite False a \<and> 0 \<le> a"
    then obtain a where a: "fmul sample_rate duration = Finite False a" "0 \<le> a" by blast
    then have "py_int (fmul sample_rate duration) = Inr \<lfloor>a\<rfloor>" "0 \<le> \<lfloor>a\<rfloor>" by simp_all
    from gsw_returns [OF this, of sin_impl frequency] a show ?thesis by auto
  next
    assume "fmul sample_rate duration = Infty False"
    then show ?thesis by (auto simp: gsw_fails_iff)
  qed
qed

text \<open>
  An instance: 100 Hz for \<open>0.3\<close> s at 44100 Hz. The float product of 44100 and the
  float \<open>0.3\<close> is exactly 13230, so the buffer has 13230 samples.
\<close>

theorem generate_sine_wave_length_witness:
  "\<forall>sin_impl. \<exists>buf.
     generate_sine_wave sin_impl (Finite False 100) f_0_3 f_44100 = Inr buf \<and>
     length buf = 13230"
proof
  fix sin_impl
  have p: "fmul f_44100 f_0_3 = Finite False 13230"
    unfolding f_44100_def f_0_3_def
    by (simp, subst round_mag_eval [where k = 13]) (simp_all add: rne_def Let_def)
  have "fpos (Finite False 100)" "fpos f_0_3" "fpos f_44100"
    by (simp_all add: f_0_3_def f_44100_def)
  from generate_sine_wave_length [OF this, of sin_impl] p
  show "\<exists>buf. generate_sine_wave sin_impl (Finite False 100) f_0_3 f_44100 = Inr buf \<and>
     length buf = 13230"
    by auto
qed

text \<open>
  At 44100 Hz the duration \<open>0.00004\<close> (\<open>0x1.4f8b588e368f1p-15\<close>) gives the float product
  \<open>1.7640000000000002\<close>: the code returns one sample, the rounded count is two.
\<close>

theorem length_truncated_not_rounded:
  "(\<forall>sin_impl.
      \<not> isl (generate_sine_wave sin_impl (Finite False 100)
               (Finite False (5902958103587057 / 2 ^ 67)) f_44100) \<and>
      length (projr (generate_sine_wave sin_impl (Finite False 100)
               (Finite False (5902958103587057 / 2 ^ 67)) f_44100)) = 1) \<and>
   spec_sample_count f_44100 (Finite False (5902958103587057 / 2 ^ 67)) = 2"
proof -
  let ?d = "Finite False (5902958103587057 / 2 ^ 67)"
  have p: "fmul f_44100 ?d = Finite False (1986087435670389 / 2 ^ 50)"
    unfolding f_44100_def
    by (simp, subst round_mag_eval [where k = 0]) (simp_all add: rne_def Let_def)
  then have "py_int (fmul f_44100 ?d) = Inr 1" by simp
  have "\<forall>sin_impl.
      \<not> isl (generate_sine_wave sin_impl (Finite False 100) ?d f_44100) \<and>
      length (projr (generate_sine_wave sin_impl (Finite False 100) ?d f_44100)) = 1"
  proof
    fix sin_impl
    from gsw_returns [OF \<open>py_int (fmul f_44100 ?d) = Inr 1\<close>, of sin_impl "Finite False 100"]
    show "\<not> isl (generate_sine_wave sin_impl (Finite False 100) ?d f_44100) \<and>
      length (projr (generate_sine_wave sin_impl (Finite False 100) ?d f_44100)) = 1"
      by auto
  qed
  moreover have "spec_sample_count f_44100 ?d = 2"
    unfolding spec_sample_count_def p by (simp add: rne_def Let_def)
  ultimately show ?thesis by blast
qed

subsection \<open>Sample times\<close>

text \<open>
  C3, as the code has it: for valid input whose float product \<open>sample_rate * duration\<close>
  is finite, with \<open>n = int(sample_rate * duration)\<close>, the buffer has \<open>n\<close> samples,
  the \<open>i\<close>-th being \<open>sin(2 * pi * frequency * t\<^sub>i) * 0.3\<close> in float arithmetic, where
  \<open>t\<close> is \<open>numpy.linspace(0, duration, n)\<close>: \<open>n\<close> times over the closed interval
  \<open>[0, duration]\<close>. For \<open>n \<ge> 2\<close> the last time is \<open>duration\<close> itself, so the sample at
  \<open>t = duration\<close> is emitted, and the times before it are \<open>i * step\<close> with
  \<open>step = duration / (n - 1)\<close> (when that float is not zero). When the product is
  infinite, the call raises \<open>OverflowError\<close>.
\<close>

theorem generate_sine_wave_samples:
  assumes "fpos frequency" and "fpos duration" and "fpos sample_rate"
  shows "(\<exists>a t buf.
            fmul sample_rate duration = Finite False a \<and>
            linspace f_zero duration \<lfloor>a\<rfloor> = Inr t \<and>
            generate_sine_wave sin_impl frequency duration sample_rate = Inr buf \<and>
            length t = nat \<lfloor>a\<rfloor> \<and> length buf = nat \<lfloor>a\<rfloor> \<and>
            (\<forall>i<nat \<lfloor>a\<rfloor>. buf ! i =
               fmul (np_sin sin_impl (fmul (fmul (fmul f_two np_pi) frequency) (t ! i))) f_0_3) \<and>
            (2 \<le> \<lfloor>a\<rfloor> \<longrightarrow>
               last t = duration \<and>
               last buf =
                 fmul (np_sin sin_impl (fmul (fmul (fmul f_two np_pi) frequency) duration))
                   f_0_3) \<and>
            (\<forall>i. i + 1 < nat \<lfloor>a\<rfloor> \<longrightarrow>
               \<not> is_zero (fdiv (fsub duration f_zero) (double_of_int (\<lfloor>a\<rfloor> - 1))) \<longrightarrow>
               t ! i =
                 fadd (fmul (double_of_int (int i))
                         (fdiv (fsub duration f_zero) (double_of_int (\<lfloor>a\<rfloor> - 1))))
                   f_zero)) \<or>
         (fmul sample_rate duration = Infty False \<and>
            generate_sine_wave sin_impl frequency duration sample_rate = Inl OverflowError)"
proof -
  let ?smp = "\<lambda>x. fmul (np_sin sin_impl (fmul (fmul (fmul f_two np_pi) frequency) x)) f_0_3"
  from fmul_pos [OF assms(3,2)] show ?thesis
  proof
    assume "\<exists>a. fmul sample_rate duration = Finite False a \<and> 0 \<le> a"
    then obtain a where a: "fmul sample_rate duration = Finite False a" "0 \<le> a" by blast
    then have n: "py_int (fmul sample_rate duration) = Inr \<lfloor>a\<rfloor>" "0 \<le> \<lfloor>a\<rfloor>" by simp_all
    from gsw_returns [OF n, of sin_impl frequency] obtain t
      where t: "linspace f_zero duration \<lfloor>a\<rfloor> = Inr t" and len: "length t = nat \<lfloor>a\<rfloor>"
        and buf: "generate_sine_wave sin_impl frequency duration sample_rate = Inr (map ?smp t)"
      by blast
    have nth: "\<forall>i<nat \<lfloor>a\<rfloor>. map ?smp t ! i = ?smp (t ! i)" using len by simp
    have lst: "last t = duration \<and> last (map ?smp t) = ?smp duration" if "2 \<le> \<lfloor>a\<rfloor>"
    proof -
      from that len have "t \<noteq> []" by auto
      with linspace_last [OF t that] show ?thesis by (simp add: last_map)
    qed
    have mid: "\<forall>i. i + 1 < nat \<lfloor>a\<rfloor> \<longrightarrow>
        \<not> is_zero (fdiv (fsub duration f_zero) (double_of_int (\<lfloor>a\<rfloor> - 1))) \<longrightarrow>
        t ! i = fadd (fmul (double_of_int (int i))
                        (fdiv (fsub duration f_zero) (double_of_int (\<lfloor>a\<rfloor> - 1)))) f_zero"
      using linspace_nth [OF t] by blast
    from a(1) t buf len nth lst mid show ?thesis by (intro disjI1 exI [of _ a] exI [of _ t] exI [of _ "map ?smp t"]) simp
  next
    assume "fmul sample_rate duration = Infty False"
    then show ?thesis by (auto simp: gsw_fails_iff)
  qed
qed

text \<open>
  An instance: the first chord of the fixed list, \<open>65.4\<close> Hz for two seconds. The last
  of the 88200 samples is taken at 2 s.
\<close>

theorem generate_sine_wave_samples_witness:
  "\<forall>sin_impl. \<exists>t buf.
     linspace f_zero (Finite False 2) 88200 = Inr t \<and>
     generate_sine_wave sin_impl (Finite False (2301057934609613 / 2 ^ 45)) (Finite False 2)
       f_44100 = Inr buf \<and>
     length buf = 88200 \<and>
     last t = Finite False 2 \<and>
     last buf =
       fmul (np_sin sin_impl
               (fmul (fmul (fmul f_two np_pi) (Finite False (2301057934609613 / 2 ^ 45)))
                  (Finite False 2)))
         f_0_3"
proof
  fix sin_impl
  let ?f = "Finite False (2301057934609613 / 2 ^ 45)"
  have p: "fmul f_44100 (Finite False 2) = Finite False 88200"
    unfolding f_44100_def
    using fmul_exact [where m = 88200 and e = 0 and a = 44100 and b = 2 and s = False and t = False]
    by simp
  have "fpos ?f" "fpos (Finite False 2)" "fpos f_44100" by (simp_all add: f_44100_def)
  from generate_sine_wave_samples [OF this, of sin_impl] p
  show "\<exists>t buf.
     linspace f_zero (Finite False 2) 88200 = Inr t \<and>
     generate_sine_wave sin_impl ?f (Finite False 2) f_44100 = Inr buf \<and>
     length buf = 88200 \<and>
     last t = Finite False 2 \<and>
     last buf = fmul (np_sin sin_impl (fmul (fmul (fmul f_two np_pi) ?f) (Finite False 2))) f_0_3"
    by auto
qed

text \<open>
  A quarter of a hertz for one second at two samples per second: the code samples at the
  times 0 and 1, the second sample having the phase \<open>numpy.pi / 2\<close> of the end of the
  duration; the half-open interval has the times 0 and 1/2.
\<close>

theorem endpoint_sample_emitted:
  "(\<forall>sin_impl.
      generate_sine_wave sin_impl (Finite False (1 / 4)) (Finite False 1) f_two =
        Inr [fmul (np_sin sin_impl (Finite False 0)) f_0_3,
             fmul (np_sin sin_impl (Finite False (884279719003555 / 2 ^ 49))) f_0_3]) \<and>
   linspace f_zero (Finite False 1) 2 = Inr [Finite False 0, Finite False 1] \<and>
   spec_sample_times (Finite False 1) 2 = [Finite False 0, Finite False (1 / 2)]"
proof -
  have c1: "fmul f_two np_pi = Finite False (884279719003555 / 2 ^ 47)"
    unfolding f_two_def np_pi_def
    using fmul_exact [where m = 884279719003555 and e = "- 47" and a = 2
        and b = "884279719003555 / 2 ^ 48" and s = False and t = False]
    by (simp add: power_int_minus)
  have c2: "fmul (Finite False (884279719003555 / 2 ^ 47)) (Finite False (1 / 4)) =
      Finite False (884279719003555 / 2 ^ 49)"
    using fmul_exact [where m = 884279719003555 and e = "- 49" and a = "884279719003555 / 2 ^ 47"
        and b = "1 / 4" and s = False and t = False]
    by (simp add: power_int_minus)
  have c3: "fmul (Finite False (884279719003555 / 2 ^ 49)) (Finite False 1) =
      Finite False (884279719003555 / 2 ^ 49)"
    using fmul_exact [where m = 884279719003555 and e = "- 49" and a = "884279719003555 / 2 ^ 49"
        and b = 1 and s = False and t = False]
    by (simp add: power_int_minus)
  have c4: "fmul (Finite False (884279719003555 / 2 ^ 49)) (Finite False 0) = Finite False 0"
    by (simp add: round_mag_0)
  have p: "py_int (fmul f_two (Finite False 1)) = Inr 2"
    by (simp add: f_two_def round_mag_2)
  have "generate_sine_wave sin_impl (Finite False (1 / 4)) (Finite False 1) f_two =
        Inr [fmul (np_sin sin_impl (Finite False 0)) f_0_3,
             fmul (np_sin sin_impl (Finite False (884279719003555 / 2 ^ 49))) f_0_3]"
    for sin_impl
    unfolding generate_sine_wave_def p linspace_0_1_2 c1 c2
    by (simp only: sum.case list.map Let_def c3 c4 linspace_0_1_2)
  moreover have "spec_sample_times (Finite False 1) 2 = [Finite False 0, Finite False (1 / 2)]"
    by (simp add: spec_sample_times_def upt_rec double_of_int_small round_mag_0 round_mag_1
        round_mag_half)
  ultimately show ?thesis using linspace_0_1_2 by blast
qed

subsection \<open>Length of the rendered layer\<close>

text \<open>
  C4, as the code has it: for a chord list whose events all have a positive root and a
  positive duration with a finite float product \<open>44100 * duration\<close>, the combined buffer
  is the concatenation of the events' waves in the order of the list, its length is the
  sum of \<open>int(44100 * duration)\<close> (the float product truncated, not rounded) over the
  events, and \<open>add_sub_bass\<close> reports the number of chords and the float quotient of
  that length by 44100 (the integer 0 for an empty buffer). For the fixed list of
  \<open>analyze_chords\<close> the buffer has 352800 samples, \<open>chords_detected\<close> is 4 and
  \<open>bass_duration\<close> is \<open>8.0\<close>.
\<close>

theorem render_length:
  "((\<forall>e\<in>set chords. fpos (c_root e) \<and> fpos (c_duration e) \<and>
        is_finite (fmul f_44100 (c_duration e))) \<longrightarrow>
      (\<exists>buf. combined_bass sin_impl chords = Inr buf \<and>
         buf = concat (map (\<lambda>e. projr (generate_sine_wave sin_impl (c_root e) (c_duration e)
                                    f_44100)) chords) \<and>
         int (length buf) = (\<Sum>e\<leftarrow>chords. \<lfloor>magnitude (fmul f_44100 (c_duration e))\<rfloor>) \<and>
         add_sub_bass sin_impl original_file chords =
           Inr \<lparr>status = ''success'', chords_detected = length chords,
                bass_duration =
                  (if 0 < length buf
                   then PyFloat (round_mag False (real (length buf) / 44100))
                   else PyInt 0)\<rparr>)) \<and>
   (\<exists>buf. combined_bass sin_impl (analyze_chords audio_file) = Inr buf \<and>
      length buf = 352800) \<and>
   add_sub_bass sin_impl original_file (analyze_chords audio_file) =
     Inr \<lparr>status = ''success'', chords_detected = 4, bass_duration = PyFloat (Finite False 8)\<rparr>"
proof -
  let ?tl = "analyze_chords audio_file"
  have "\<forall>e\<in>set ?tl. fpos (c_root e) \<and> fpos (c_duration e) \<and>
      is_finite (fmul f_44100 (c_duration e))"
    by (simp add: analyze_chords_def fmul_44100_2)
  then have "\<forall>e\<in>set ?tl. fpos (c_duration e) \<and> is_finite (fmul f_44100 (c_duration e))"
    by blast
  from render_valid [OF this, of sin_impl original_file] obtain buf where
    buf: "combined_bass sin_impl ?tl = Inr buf"
    and len: "int (length buf) = (\<Sum>e\<leftarrow>?tl. \<lfloor>magnitude (fmul f_44100 (c_duration e))\<rfloor>)"
    and res: "add_sub_bass sin_impl original_file ?tl =
      Inr \<lparr>status = ''success'', chords_detected = length ?tl,
           bass_duration =
             (if 0 < length buf then PyFloat (round_mag False (real (length buf) / 44100))
              else PyInt 0)\<rparr>"
    by blast
  from len have l: "length buf = 352800" by (simp add: analyze_chords_def fmul_44100_2)
  with res have "add_sub_bass sin_impl original_file ?tl =
      Inr \<lparr>status = ''success'', chords_detected = 4, bass_duration = PyFloat (Finite False 8)\<rparr>"
    by (simp add: analyze_chords_def round_mag_8)
  with buf l render_valid [of chords sin_impl original_file] show ?thesis by blast
qed

text \<open>
  An instance: a single chord of \<open>0.3\<close> s. The buffer has 13230 samples and the
  reported duration is the float \<open>0.3\<close>.
\<close>

theorem render_length_witness:
  "\<forall>sin_impl.
     (\<exists>buf. combined_bass sin_impl
               [\<lparr>c_chord = ''C'', c_root = Finite False (2301057934609613 / 2 ^ 45),
                 c_duration = f_0_3\<rparr>] = Inr buf \<and>
             length buf = 13230) \<and>
     add_sub_bass sin_impl ''song.mp3''
       [\<lparr>c_chord = ''C'', c_root = Finite False (2301057934609613 / 2 ^ 45),
         c_duration = f_0_3\<rparr>] =
       Inr \<lparr>status = ''success'', chords_detected = 1, bass_duration = PyFloat f_0_3\<rparr>"
proof
  fix sin_impl
  let ?tl = "[\<lparr>c_chord = ''C'', c_root = Finite False (2301057934609613 / 2 ^ 45),
               c_duration = f_0_3\<rparr>]"
  have v: "\<forall>e\<in>set ?tl. fpos (c_root e) \<and> fpos (c_duration e) \<and>
      is_finite (fmul f_44100 (c_duration e))"
    by (simp add: fpos_f_0_3 fmul_44100_0_3)
  from render_length [of ?tl sin_impl "''song.mp3''", THEN conjunct1] v obtain buf where
    buf: "combined_bass sin_impl ?tl = Inr buf"
    and len: "int (length buf) = (\<Sum>e\<leftarrow>?tl. \<lfloor>magnitude (fmul f_44100 (c_duration e))\<rfloor>)"
    and res: "add_sub_bass sin_impl ''song.mp3'' ?tl =
      Inr \<lparr>status = ''success'', chords_detected = length ?tl,
           bass_duration =
             (if 0 < length buf then PyFloat (round_mag False (real (length buf) / 44100))
              else PyInt 0)\<rparr>"
    by blast
  from len have l: "length buf = 13230" by (simp add: fmul_44100_0_3)
  have "round_mag False (13230 / 44100) = f_0_3"
    unfolding f_0_3_def
    by (subst round_mag_eval [where k = "- 2"]) (simp_all add: rne_def Let_def)
  with res l have "add_sub_bass sin_impl ''song.mp3'' ?tl =
      Inr \<lparr>status = ''success'', chords_detected = 1, bass_duration = PyFloat f_0_3\<rparr>"
    by simp
  with buf l show "(\<exists>buf. combined_bass sin_impl ?tl = Inr buf \<and> length buf = 13230) \<and>
     add_sub_bass sin_impl ''song.mp3'' ?tl =
       Inr \<lparr>status = ''success'', chords_detected = 1, bass_duration = PyFloat f_0_3\<rparr>"
    by blast
qed

text \<open>
  A single valid event of \<open>0.00004\<close> s: the buffer has one sample, the sum of the
  rounded counts is two.
\<close>

theorem render_length_not_rounded:
  "(\<forall>sin_impl.
      \<not> isl (combined_bass sin_impl
               [\<lparr>c_chord = ''C'', c_root = Finite False (2301057934609613 / 2 ^ 45),
                 c_duration = Finite False (5902958103587057 / 2 ^ 67)\<rparr>]) \<and>
      length (projr (combined_bass sin_impl
               [\<lparr>c_chord = ''C'', c_root = Finite False (2301057934609613 / 2 ^ 45),
                 c_duration = Finite False (5902958103587057 / 2 ^ 67)\<rparr>])) = 1) \<and>
   spec_render_length
     [\<lparr>c_chord = ''C'', c_root = Finite False (2301057934609613 / 2 ^ 45),
       c_duration = Finite False (5902958103587057 / 2 ^ 67)\<rparr>] = 2"
proof -
  let ?d = "Finite False (5902958103587057 / 2 ^ 67)"
  let ?tl = "[\<lparr>c_chord = ''C'', c_root = Finite False (2301057934609613 / 2 ^ 45),
               c_duration = ?d\<rparr>]"
  have p: "fmul f_44100 ?d = Finite False (1986087435670389 / 2 ^ 50)"
    unfolding f_44100_def
    by (simp, subst round_mag_eval [where k = 0]) (simp_all add: rne_def Let_def)
  have v: "\<forall>e\<in>set ?tl. fpos (c_root e) \<and> fpos (c_duration e) \<and>
      is_finite (fmul f_44100 (c_duration e))"
    unfolding list.set ball_simps chord_event.select_convs p by simp
  have "\<not> isl (combined_bass sin_impl ?tl) \<and> length (projr (combined_bass sin_impl ?tl)) = 1"
    for sin_impl
  proof -
    from v have "\<forall>e\<in>set ?tl. fpos (c_duration e) \<and> is_finite (fmul f_44100 (c_duration e))"
      by blast
    from render_valid [OF this, of sin_impl "''song.mp3''"] obtain buf where
      buf: "combined_bass sin_impl ?tl = Inr buf"
      and len: "int (length buf) = (\<Sum>e\<leftarrow>?tl. \<lfloor>magnitude (fmul f_44100 (c_duration e))\<rfloor>)"
      by blast
    from len have "int (length buf) = \<lfloor>magnitude (fmul f_44100 ?d)\<rfloor>" by simp
    then have "length buf = 1" unfolding p by simp
    with buf show ?thesis by simp
  qed
  moreover have "spec_render_length ?tl = 2"
    unfolding spec_render_length_def spec_sample_count_def list.map chord_event.select_convs p
    by (simp add: rne_def Let_def)
  ultimately show ?thesis by blast
qed

subsection \<open>The empty timeline\<close>

text \<open>
  C5: for the empty chord list the loop runs no iteration, the combined buffer is the
  empty array and \<open>add_sub_bass\<close> returns normally, with \<open>chords_detected = 0\<close> and
  \<open>bass_duration = 0\<close>; no exception is raised.
\<close>

theorem empty_timeline:
  "combined_bass sin_impl [] = Inr [] \<and>
   add_sub_bass sin_impl original_file [] =
     Inr \<lparr>status = ''success'', chords_detected = 0, bass_duration = PyInt 0\<rparr>"
  by (simp add: combined_bass_def add_sub_bass_def)

subsection \<open>Amplitude\<close>




subsection \<open>Failing events\<close>

text \<open>
  C8, as the code has it: \<open>add_sub_bass\<close> fails exactly when \<open>generate_sine_wave\<close>
  fails for some event; the error is the one of the first such event, whatever follows
  it, and then no combined buffer exists either. An event fails exactly when its float
  product \<open>44100 * duration\<close> is NaN (\<open>ValueError\<close>), infinite (\<open>OverflowError\<close>) or
  \<open>-1\<close> or less (the \<open>ValueError\<close> of \<open>linspace\<close>); its root never matters, and a zero
  duration does not fail.
\<close>

theorem add_sub_bass_aborts_iff:
  "(add_sub_bass sin_impl original_file chords = Inl e \<longleftrightarrow>
      (\<exists>pre c post. chords = pre @ c # post \<and>
         (\<forall>x\<in>set pre.
            \<not> isl (generate_sine_wave sin_impl (c_root x) (c_duration x) f_44100)) \<and>
         generate_sine_wave sin_impl (c_root c) (c_duration c) f_44100 = Inl e)) \<and>
   (combined_bass sin_impl chords = Inl e \<longleftrightarrow>
      add_sub_bass sin_impl original_file chords = Inl e) \<and>
   (generate_sine_wave sin_impl (c_root ev) (c_duration ev) f_44100 = Inl e \<longleftrightarrow>
      fmul f_44100 (c_duration ev) = NaN \<and> e = ValueError_nan \<or>
      (\<exists>s. fmul f_44100 (c_duration ev) = Infty s) \<and> e = OverflowError \<or>
      (\<exists>a. fmul f_44100 (c_duration ev) = Finite True a \<and> 1 \<le> a \<and>
           e = ValueError_samples (- \<lfloor>a\<rfloor>)))"
proof (intro conjI)
  show "add_sub_bass sin_impl original_file chords = Inl e \<longleftrightarrow>
      (\<exists>pre c post. chords = pre @ c # post \<and>
         (\<forall>x\<in>set pre.
            \<not> isl (generate_sine_wave sin_impl (c_root x) (c_duration x) f_44100)) \<and>
         generate_sine_wave sin_impl (c_root c) (c_duration c) f_44100 = Inl e)"
    unfolding add_sub_bass_Inl_iff
    using loop_Inl_D [of sin_impl chords "[]" e] loop_fail [of _ sin_impl _ e _ "[]"]
    by blast
  show "combined_bass sin_impl chords = Inl e \<longleftrightarrow>
      add_sub_bass sin_impl original_file chords = Inl e"
    by (simp add: combined_bass_Inl_iff add_sub_bass_Inl_iff)
  show "generate_sine_wave sin_impl (c_root ev) (c_duration ev) f_44100 = Inl e \<longleftrightarrow>
      fmul f_44100 (c_duration ev) = NaN \<and> e = ValueError_nan \<or>
      (\<exists>s. fmul f_44100 (c_duration ev) = Infty s) \<and> e = OverflowError \<or>
      (\<exists>a. fmul f_44100 (c_duration ev) = Finite True a \<and> 1 \<le> a \<and>
           e = ValueError_samples (- \<lfloor>a\<rfloor>))"
    by (rule gsw_fails_iff)
qed

text \<open>
  Two instances. A good event, then one of \<open>-0.3\<close> s, then one of \<open>2\<^sup>1\<^sup>0\<^sup>2\<^sup>0\<close> s: the error
  is the one of the second event, \<open>linspace\<close>'s for \<open>-13230\<close> samples. With the last
  two events exchanged the error is the \<open>OverflowError\<close> of the long event.
\<close>

theorem add_sub_bass_aborts_iff_witness:
  "\<forall>sin_impl.
     add_sub_bass sin_impl ''song.mp3''
       [\<lparr>c_chord = ''C'', c_root = Finite False (2301057934609613 / 2 ^ 45),
         c_duration = Finite False 2\<rparr>,
        \<lparr>c_chord = ''G'', c_root = Finite False 98, c_duration = fneg f_0_3\<rparr>,
        \<lparr>c_chord = ''F'', c_root = Finite False (6143191366710067 / 2 ^ 46),
         c_duration = Finite False (2 ^ 1020)\<rparr>] = Inl (ValueError_samples (- 13230)) \<and>
     add_sub_bass sin_impl ''song.mp3''
       [\<lparr>c_chord = ''C'', c_root = Finite False (2301057934609613 / 2 ^ 45),
         c_duration = Finite False 2\<rparr>,
        \<lparr>c_chord = ''F'', c_root = Finite False (6143191366710067 / 2 ^ 46),
         c_duration = Finite False (2 ^ 1020)\<rparr>,
        \<lparr>c_chord = ''G'', c_root = Finite False 98, c_duration = fneg f_0_3\<rparr>] =
       Inl OverflowError"
proof
  fix sin_impl
  let ?a = "\<lparr>c_chord = ''C'', c_root = Finite False (2301057934609613 / 2 ^ 45),
             c_duration = Finite False 2\<rparr>"
  let ?b = "\<lparr>c_chord = ''G'', c_root = Finite False 98, c_duration = fneg f_0_3\<rparr>"
  let ?c = "\<lparr>c_chord = ''F'', c_root = Finite False (6143191366710067 / 2 ^ 46),
             c_duration = Finite False (2 ^ 1020)\<rparr>"
  have a: "\<forall>x\<in>set [?a]. \<not> isl (generate_sine_wave sin_impl (c_root x) (c_duration x) f_44100)"
    using gsw_ok [OF fmul_44100_2] by simp
  have b: "generate_sine_wave sin_impl (c_root ?b) (c_duration ?b) f_44100 =
      Inl (ValueError_samples (- 13230))"
    by (simp add: gsw_fails_iff fmul_44100_neg_0_3)
  have c: "generate_sine_wave sin_impl (c_root ?c) (c_duration ?c) f_44100 = Inl OverflowError"
    using fmul_44100_huge by (auto simp: gsw_fails_iff)
  from a b have "\<exists>pre c post. [?a, ?b, ?c] = pre @ c # post \<and>
      (\<forall>x\<in>set pre. \<not> isl (generate_sine_wave sin_impl (c_root x) (c_duration x) f_44100)) \<and>
      generate_sine_wave sin_impl (c_root c) (c_duration c) f_44100 =
        Inl (ValueError_samples (- 13230))"
    by (intro exI [of _ "[?a]"] exI [of _ ?b] exI [of _ "[?c]"]) simp
  then have 1: "add_sub_bass sin_impl ''song.mp3'' [?a, ?b, ?c] = Inl (ValueError_samples (- 13230))"
    by (simp only: add_sub_bass_aborts_iff
        [of sin_impl "''song.mp3''" "[?a, ?b, ?c]" "ValueError_samples (- 13230)", THEN conjunct1])
  from a c have "\<exists>pre c post. [?a, ?c, ?b] = pre @ c # post \<and>
      (\<forall>x\<in>set pre. \<not> isl (generate_sine_wave sin_impl (c_root x) (c_duration x) f_44100)) \<and>
      generate_sine_wave sin_impl (c_root c) (c_duration c) f_44100 = Inl OverflowError"
    by (intro exI [of _ "[?a]"] exI [of _ ?c] exI [of _ "[?b]"]) simp
  then have 2: "add_sub_bass sin_impl ''song.mp3'' [?a, ?c, ?b] = Inl OverflowError"
    by (simp only: add_sub_bass_aborts_iff
        [of sin_impl "''song.mp3''" "[?a, ?c, ?b]" OverflowError, THEN conjunct1])
  from 1 2 show "add_sub_bass sin_impl ''song.mp3'' [?a, ?b, ?c] =
      Inl (ValueError_samples (- 13230)) \<and>
     add_sub_bass sin_impl ''song.mp3'' [?a, ?c, ?b] = Inl OverflowError"
    by (rule conjI)
qed

text \<open>
  A timeline whose only event has the root \<open>-10\<close> is rendered: one chord, one second.
\<close>

theorem invalid_event_rendered:
  "\<forall>sin_impl.
     add_sub_bass sin_impl ''song.mp3''
       [\<lparr>c_chord = ''X'', c_root = Finite True 10, c_duration = Finite False 1\<rparr>] =
       Inr \<lparr>status = ''success'', chords_detected = 1,
            bass_duration = PyFloat (Finite False 1)\<rparr>"
proof
  fix sin_impl
  let ?tl = "[\<lparr>c_chord = ''X'', c_root = Finite True 10, c_duration = Finite False 1\<rparr>]"
  have p: "fmul f_44100 (Finite False 1) = Finite False 44100"
    unfolding f_44100_def
    using fmul_exact [where m = 44100 and e = 0 and a = 44100 and b = 1 and s = False and t = False]
    by simp
  then have "\<forall>e\<in>set ?tl. fpos (c_duration e) \<and> is_finite (fmul f_44100 (c_duration e))"
    by simp
  from render_valid [OF this, of sin_impl "''song.mp3''"] obtain buf where
    buf: "combined_bass sin_impl ?tl = Inr buf"
    and len: "int (length buf) = (\<Sum>e\<leftarrow>?tl. \<lfloor>magnitude (fmul f_44100 (c_duration e))\<rfloor>)"
    and res: "add_sub_bass sin_impl ''song.mp3'' ?tl =
      Inr \<lparr>status = ''success'', chords_detected = length ?tl,
           bass_duration =
             (if 0 < length buf then PyFloat (round_mag False (real (length buf) / 44100))
              else PyInt 0)\<rparr>"
    by blast
  from len p have "length buf = 44100" by simp
  with res show "add_sub_bass sin_impl ''song.mp3'' ?tl =
       Inr \<lparr>status = ''success'', chords_detected = 1,
            bass_duration = PyFloat (Finite False 1)\<rparr>"
    by (simp add: round_mag_1)
qed

subsection \<open>The original file\<close>

text \<open>
  C10: the result of \<open>add_sub_bass\<close> is the same for any two values of
  \<open>original_file\<close>: the argument is never read.
\<close>

theorem add_sub_bass_ignores_original_file:
  "add_sub_bass sin_impl original_file1 chords = add_sub_bass sin_impl original_file2 chords"
  by (simp add: add_sub_bass_def)

end
